theory Spec2Isabelle
  imports Complex_Main
begin

section \<open>The spring engine of \<open>Spring.cc\<close>\<close>

text \<open>
  The class \<open>AdvancedSpringPhysics\<close> holds one \<open>SpringState\<close> and three methods that
  mutate it: \<open>update\<close> (the spec's \<open>integrate\<close>), \<open>dragTo\<close> and \<open>release\<close>. Each method
  becomes a function from the state before the call to the state after it.

  Numbers: arithmetic is exact, on \<^typ>\<open>real\<close>: rounding, overflow and signed zeros are
  outside this model. A division whose divisor is zero is where exact arithmetic and the
  machine part ways inside the engine. C++ does not trap there; it produces an infinity
  or a NaN and goes on.
  \<^item> In the dragged branch of \<open>update\<close> the quotient is only stored, in the pending
    release velocity. Those two fields are of type \<open>dbl\<close>, which has the infinity and the
    NaN, the division there is \<open>ieee_div\<close>, and the call returns a state as it does in
    the source.
  \<^item> Everywhere else a value that a division by zero produced would enter the velocity
    and the position, which are real numbers here. There the division is \<open>ddiv\<close>, and a
    call that would carry such a value on yields \<open>Inl DivByZero\<close> instead of a state.
\<close>

subsection \<open>Numbers and library functions\<close>

datatype error = DivByZero

text \<open>
  A \<open>double\<close> that may not be finite. \<open>Infty\<close> is either infinity: its sign would depend
  on the sign of the zero divisor, and the one thing the engine does with an infinity
  that the model follows is the test of its absolute value.
\<close>

datatype dbl = Num real | Infty | NaN

text \<open>The quotient \<open>a / b\<close> of two finite doubles.\<close>

definition ieee_div :: "real \<Rightarrow> real \<Rightarrow> dbl" where
  "ieee_div a b = (if b \<noteq> 0 then Num (a / b) else if a = 0 then NaN else Infty)"

text \<open>The test \<open>std::abs(x) > 0\<close>: true of an infinity, false of a NaN.\<close>

fun abs_positive :: "dbl \<Rightarrow> bool" where
  "abs_positive (Num r) = (\<bar>r\<bar> > 0)"
| "abs_positive Infty = True"
| "abs_positive NaN = False"

definition ddiv :: "real \<Rightarrow> real \<Rightarrow> error + real" where
  "ddiv a b = (if b = 0 then Inl DivByZero else Inr (a / b))"

definition bind_res :: "error + 'a \<Rightarrow> ('a \<Rightarrow> error + 'b) \<Rightarrow> error + 'b" where
  "bind_res r f = (case r of Inl e \<Rightarrow> Inl e | Inr v \<Rightarrow> f v)"

text \<open>
  \<open>std::atan2(y, x)\<close> of \<open><cmath>\<close>: the angle in \<open>(-\<pi>, \<pi>]\<close> of the point \<open>(x, y)\<close>,
  and \<open>0\<close> at the origin.
\<close>

definition atan2 :: "real \<Rightarrow> real \<Rightarrow> real" where
  "atan2 y x =
     (if 0 < x then arctan (y / x)
      else if x < 0 then (if 0 \<le> y then arctan (y / x) + pi else arctan (y / x) - pi)
      else if 0 < y then pi / 2
      else if y < 0 then - (pi / 2)
      else 0)"

text \<open>The expression \<open>std::sqrt(dx*dx + dy*dy)\<close>, which the source writes out four times.\<close>

definition vlen :: "real \<Rightarrow> real \<Rightarrow> real" where
  "vlen dx dy = sqrt (dx * dx + dy * dy)"

subsection \<open>The state\<close>

record SpringState =
  anchorX :: real
  anchorY :: real
  currentX :: real
  currentY :: real
  restLength :: real
  currentLength :: real
  stiffness :: real
  damping :: real
  mass :: real
  velocityX :: real
  velocityY :: real
  isDragged :: bool
  minLength :: real
  maxLength :: real
  isLimitReached :: bool
  lastDragX :: real
  lastDragY :: real
  initialReleaseVelocityX :: dbl
  initialReleaseVelocityY :: dbl

definition SCREEN_WIDTH :: real where
  "SCREEN_WIDTH = 800"

text \<open>The constructor \<open>AdvancedSpringPhysics()\<close>.\<close>

definition initial_state :: SpringState where
  "initial_state =
     \<lparr> anchorX = SCREEN_WIDTH / 2,
       anchorY = 100,
       currentX = SCREEN_WIDTH / 2,
       currentY = 300,
       restLength = 200,
       currentLength = 200,
       stiffness = 100,
       damping = 3 / 10,
       mass = 1,
       velocityX = 0,
       velocityY = 0,
       isDragged = False,
       minLength = 100,
       maxLength = 450,
       isLimitReached = False,
       lastDragX = SCREEN_WIDTH / 2,
       lastDragY = 300,
       initialReleaseVelocityX = Num 0,
       initialReleaseVelocityY = Num 0 \<rparr>"

subsection \<open>\<open>update\<close>\<close>

text \<open>
  The body of \<open>update\<close> is four blocks, each a definition here:
  the dragged branch (lines 67-81), the hand-over of the release velocity (lines 90-98),
  the forces and the Euler step (lines 85-87 and 100-117), and the length constraints
  (lines 119-140). The local variable \<open>currentLength\<close> of \<open>update\<close> is not the field
  \<open>state.currentLength\<close>, which the engine never writes.
\<close>

definition sample_drag :: "real \<Rightarrow> SpringState \<Rightarrow> SpringState" where
  "sample_drag deltaTime s =
     (let dx = currentX s - lastDragX s;
          dy = currentY s - lastDragY s
      in s\<lparr> initialReleaseVelocityX := ieee_div dx deltaTime,
            initialReleaseVelocityY := ieee_div dy deltaTime,
            lastDragX := currentX s,
            lastDragY := currentY s \<rparr>)"

text \<open>
  The hand-over copies the pending release velocity into the velocity when the test
  holds. A pending velocity with a component that is not finite cannot be copied into
  the real velocity: that is where the model stops.
\<close>

definition take_release_velocity :: "SpringState \<Rightarrow> error + SpringState" where
  "take_release_velocity s =
     (if abs_positive (initialReleaseVelocityX s) \<or> abs_positive (initialReleaseVelocityY s)
      then (case (initialReleaseVelocityX s, initialReleaseVelocityY s) of
              (Num rvx, Num rvy) \<Rightarrow>
                Inr (s\<lparr> velocityX := rvx,
                        velocityY := rvy,
                        initialReleaseVelocityX := Num 0,
                        initialReleaseVelocityY := Num 0 \<rparr>)
            | _ \<Rightarrow> Inl DivByZero)
      else Inr s)"

definition apply_forces :: "real \<Rightarrow> SpringState \<Rightarrow> error + SpringState" where
  "apply_forces deltaTime s =
     (let dx = currentX s - anchorX s;
          dy = currentY s - anchorY s;
          len = vlen dx dy
      in bind_res (ddiv dx len) (\<lambda>ux.
         bind_res (ddiv dy len) (\<lambda>uy.
         let springForceX = - stiffness s * (len - restLength s) * ux;
             springForceY = - stiffness s * (len - restLength s) * uy;
             dampingForceX = - damping s * velocityX s;
             dampingForceY = - damping s * velocityY s;
             gravityForceY = mass s * (98 / 10)
         in bind_res (ddiv (springForceX + dampingForceX) (mass s)) (\<lambda>ax.
            bind_res (ddiv (springForceY + dampingForceY + gravityForceY) (mass s)) (\<lambda>ay.
            let vx = velocityX s + ax * deltaTime;
                vy = velocityY s + ay * deltaTime
            in Inr (s\<lparr> velocityX := vx,
                       velocityY := vy,
                       currentX := currentX s + vx * deltaTime,
                       currentY := currentY s + vy * deltaTime \<rparr>))))))"

definition enforce_limits :: "SpringState \<Rightarrow> SpringState" where
  "enforce_limits s =
     (let dx = currentX s - anchorX s;
          dy = currentY s - anchorY s;
          len = vlen dx dy
      in if len < minLength s then
           (let angle = atan2 dy dx
            in s\<lparr> currentX := anchorX s + minLength s * cos angle,
                   currentY := anchorY s + minLength s * sin angle,
                   velocityX := velocityX s * (- (1 / 2)),
                   velocityY := velocityY s * (- (1 / 2)) \<rparr>)
         else if len > maxLength s then
           (let angle = atan2 dy dx
            in s\<lparr> currentX := anchorX s + maxLength s * cos angle,
                   currentY := anchorY s + maxLength s * sin angle,
                   velocityX := velocityX s * (- (1 / 2)),
                   velocityY := velocityY s * (- (1 / 2)) \<rparr>)
         else s)"

definition update :: "real \<Rightarrow> SpringState \<Rightarrow> error + SpringState" where
  "update deltaTime s =
     (if isDragged s then Inr (sample_drag deltaTime s)
      else bind_res (take_release_velocity s) (\<lambda>s1.
           bind_res (apply_forces deltaTime s1) (\<lambda>s2.
           Inr (enforce_limits s2))))"

subsection \<open>\<open>dragTo\<close> and \<open>release\<close>\<close>

definition dragTo :: "real \<Rightarrow> real \<Rightarrow> SpringState \<Rightarrow> SpringState" where
  "dragTo mouseX mouseY s =
     (let dx = mouseX - anchorX s;
          dy = mouseY - anchorY s;
          potentialLength = vlen dx dy;
          angle = atan2 dy dx
      in if potentialLength \<ge> minLength s \<and> potentialLength \<le> maxLength s then
           s\<lparr> isDragged := True,
              currentX := mouseX,
              currentY := mouseY,
              lastDragX := mouseX,
              lastDragY := mouseY,
              velocityX := 0,
              velocityY := 0,
              isLimitReached := False \<rparr>
         else
           (let s1 = s\<lparr> isDragged := True \<rparr>
            in if \<not> isLimitReached s1 then
                 (if potentialLength < minLength s1 then
                    s1\<lparr> currentX := anchorX s1 + minLength s1 * cos angle,
                        currentY := anchorY s1 + minLength s1 * sin angle,
                        lastDragX := anchorX s1 + minLength s1 * cos angle,
                        lastDragY := anchorY s1 + minLength s1 * sin angle,
                        isLimitReached := True \<rparr>
                  else if potentialLength > maxLength s1 then
                    s1\<lparr> currentX := anchorX s1 + maxLength s1 * cos angle,
                        currentY := anchorY s1 + maxLength s1 * sin angle,
                        lastDragX := anchorX s1 + maxLength s1 * cos angle,
                        lastDragY := anchorY s1 + maxLength s1 * sin angle,
                        isLimitReached := True \<rparr>
                  else s1)
               else s1))"

definition release :: "SpringState \<Rightarrow> SpringState" where
  "release s = s\<lparr> isDragged := False, isLimitReached := False \<rparr>"

section \<open>Vocabulary of the properties\<close>

text \<open>
  The current length of the spring is the distance from the anchor to the mass, and the
  envelope is the interval from \<open>minLength\<close> to \<open>maxLength\<close>.
\<close>

definition length_of :: "SpringState \<Rightarrow> real" where
  "length_of s = vlen (currentX s - anchorX s) (currentY s - anchorY s)"

definition in_envelope :: "SpringState \<Rightarrow> bool" where
  "in_envelope s = (minLength s \<le> length_of s \<and> length_of s \<le> maxLength s)"

text \<open>
  The states the engine can be in: the constructed state, and whatever a call of
  \<open>update\<close>, \<open>dragTo\<close> or \<open>release\<close> makes of such a state. Every call on a reachable
  state returns a state (\<open>reachable_update_total\<close> below), also the dragged \<open>update\<close> with
  \<open>deltaTime = 0\<close>, so no call sequence of the program is left out.
\<close>

inductive reachable :: "SpringState \<Rightarrow> bool" where
  init: "reachable initial_state"
| integrate: "reachable s \<Longrightarrow> update deltaTime s = Inr s' \<Longrightarrow> reachable s'"
| drag: "reachable s \<Longrightarrow> reachable (dragTo mouseX mouseY s)"
| let_go: "reachable s \<Longrightarrow> reachable (release s)"

text \<open>
  What every reachable state satisfies: the limits are ordered and positive, the mass is
  not zero, the length is within the envelope, the limit flag is set only during a drag,
  a dragged mass sits where the last drag sample was taken, the test of the hand-over
  fails on the pending release velocity (each component is \<open>0\<close> or NaN), and a drag that
  is not pinned has stopped the mass.
\<close>

definition engine_inv :: "SpringState \<Rightarrow> bool" where
  "engine_inv s =
     (0 < minLength s \<and> minLength s \<le> maxLength s \<and> mass s \<noteq> 0 \<and>
      in_envelope s \<and>
      (isLimitReached s \<longrightarrow> isDragged s) \<and>
      (isDragged s \<longrightarrow> lastDragX s = currentX s \<and> lastDragY s = currentY s) \<and>
      \<not> abs_positive (initialReleaseVelocityX s) \<and>
      \<not> abs_positive (initialReleaseVelocityY s) \<and>
      (isDragged s \<and> \<not> isLimitReached s \<longrightarrow> velocityX s = 0 \<and> velocityY s = 0))"

text \<open>
  A pointer position is in range when its distance from the anchor is within the
  envelope: the test of \<open>dragTo\<close>. \<open>drag_all\<close> is the driver delivering one \<open>dragTo\<close> call
  for each pointer sample of a list, in order.
\<close>

definition pointer_in_range :: "SpringState \<Rightarrow> real \<Rightarrow> real \<Rightarrow> bool" where
  "pointer_in_range s mouseX mouseY =
     (minLength s \<le> vlen (mouseX - anchorX s) (mouseY - anchorY s) \<and>
      vlen (mouseX - anchorX s) (mouseY - anchorY s) \<le> maxLength s)"

fun drag_all :: "(real \<times> real) list \<Rightarrow> SpringState \<Rightarrow> SpringState" where
  "drag_all [] s = s"
| "drag_all ((mouseX, mouseY) # ps) s = drag_all ps (dragTo mouseX mouseY s)"

section \<open>Lengths and angles\<close>

lemma vlen_nonneg: "0 \<le> vlen dx dy"
  by (simp add: vlen_def)

lemma vlen_polar: "vlen (L * cos a) (L * sin a) = \<bar>L\<bar>"
proof -
  have "(L * cos a)\<^sup>2 + (L * sin a)\<^sup>2 = L\<^sup>2 * ((cos a)\<^sup>2 + (sin a)\<^sup>2)"
    by (simp only: power_mult_distrib distrib_left)
  then have "(L * cos a)\<^sup>2 + (L * sin a)\<^sup>2 = L\<^sup>2"
    by simp
  then have "sqrt ((L * cos a)\<^sup>2 + (L * sin a)\<^sup>2) = \<bar>L\<bar>"
    by simp
  then show ?thesis
    by (simp only: vlen_def power2_eq_square)
qed

lemma vlen_zero_left: "vlen 0 dy = \<bar>dy\<bar>"
  by (simp add: vlen_def)

lemma vlen_eq_0_iff: "vlen dx dy = 0 \<longleftrightarrow> dx = 0 \<and> dy = 0"
  by (simp add: vlen_def add_nonneg_eq_0_iff)

lemma sqrt_one_plus_ratio:
  assumes "x \<noteq> 0"
  shows "sqrt (1 + (y / x)\<^sup>2) = vlen x y / \<bar>x\<bar>"
proof -
  have "1 + (y / x)\<^sup>2 = (x * x + y * y) / (x * x)"
    using assms by (simp add: power2_eq_square field_simps)
  then show ?thesis
    by (simp add: vlen_def real_sqrt_divide)
qed

lemma cos_arctan_ratio:
  assumes "x \<noteq> 0"
  shows "cos (arctan (y / x)) = \<bar>x\<bar> / vlen x y"
  by (simp add: cos_arctan sqrt_one_plus_ratio [OF assms])

lemma sin_arctan_ratio:
  assumes "x \<noteq> 0"
  shows "sin (arctan (y / x)) = (y / x) * \<bar>x\<bar> / vlen x y"
  by (simp add: sin_arctan sqrt_one_plus_ratio [OF assms])

lemma cos_atan2: 
  assumes "vlen dx dy \<noteq> 0" shows "cos (atan2 dy dx) = dx / vlen dx dy"
proof (cases "dx = 0")
  case True
  with assms have "dy \<noteq> 0" by (simp add: vlen_eq_0_iff)
  with True show ?thesis by (simp add: atan2_def)
next
  case False
  then show ?thesis
    by (simp add: atan2_def cos_arctan_ratio)
qed

lemma sin_atan2:
  assumes "vlen dx dy \<noteq> 0" shows "sin (atan2 dy dx) = dy / vlen dx dy"
proof (cases "dx = 0")
  case True
  with assms have "dy \<noteq> 0" by (simp add: vlen_eq_0_iff)
  with True show ?thesis by (auto simp add: atan2_def vlen_zero_left)
next
  case False
  then show ?thesis
    by (auto simp add: atan2_def sin_arctan_ratio)
qed

lemma atan2_scale:
  assumes "0 < k"
  shows "atan2 (k * y) (k * x) = atan2 y x"
  using assms by (simp add: atan2_def zero_less_mult_iff mult_less_0_iff zero_le_mult_iff)

lemma atan2_polar:
  assumes "0 < L"
  shows "atan2 (L * sin (atan2 y x)) (L * cos (atan2 y x)) = atan2 y x"
proof (cases "vlen x y = 0")
  case True
  then have "x = 0" and "y = 0" by (simp_all add: vlen_eq_0_iff)
  then show ?thesis using assms by (simp add: atan2_def)
next
  case False
  then have "0 < L / vlen x y"
    using assms vlen_nonneg [of x y] by simp
  from atan2_scale [OF this, of y x] show ?thesis
    by (simp add: cos_atan2 [OF False] sin_atan2 [OF False])
qed

lemma atan2_vertical_up: "0 < y \<Longrightarrow> atan2 y 0 = pi / 2"
  by (simp add: atan2_def)

section \<open>The invariant of the engine\<close>

lemma engine_inv_initial: "engine_inv initial_state"
  by (simp add: engine_inv_def initial_state_def in_envelope_def length_of_def SCREEN_WIDTH_def vlen_zero_left)

lemma engine_inv_release: "engine_inv s \<Longrightarrow> engine_inv (release s)"
  by (simp add: engine_inv_def release_def in_envelope_def length_of_def)

lemma length_of_enforce_limits:
  assumes "0 \<le> minLength s" "minLength s \<le> maxLength s"
  shows "in_envelope (enforce_limits s)"
  using assms
  by (auto simp add: enforce_limits_def in_envelope_def length_of_def Let_def vlen_polar)

lemma enforce_limits_frame:
  "minLength (enforce_limits s) = minLength s"
  "maxLength (enforce_limits s) = maxLength s"
  "mass (enforce_limits s) = mass s"
  "isDragged (enforce_limits s) = isDragged s"
  "isLimitReached (enforce_limits s) = isLimitReached s"
  "initialReleaseVelocityX (enforce_limits s) = initialReleaseVelocityX s"
  "initialReleaseVelocityY (enforce_limits s) = initialReleaseVelocityY s"
  by (simp_all add: enforce_limits_def Let_def)

lemma apply_forces_Inr:
  assumes "length_of s \<noteq> 0" "mass s \<noteq> 0"
  shows "\<exists>p. apply_forces dt s = Inr p \<and> minLength p = minLength s \<and> maxLength p = maxLength s
     \<and> mass p = mass s \<and> isDragged p = isDragged s \<and> isLimitReached p = isLimitReached s
     \<and> initialReleaseVelocityX p = initialReleaseVelocityX s
     \<and> initialReleaseVelocityY p = initialReleaseVelocityY s"
  using assms by (simp add: apply_forces_def length_of_def Let_def bind_res_def ddiv_def)

lemma take_release_velocity_none:
  assumes "\<not> abs_positive (initialReleaseVelocityX s)"
      and "\<not> abs_positive (initialReleaseVelocityY s)"
  shows "take_release_velocity s = Inr s"
  using assms by (simp add: take_release_velocity_def)

lemma update_free_inv:
  assumes "engine_inv s" "\<not> isDragged s"
  shows "\<exists>s'. update dt s = Inr s' \<and> engine_inv s'"
proof -
  from assms have trv: "take_release_velocity s = Inr s"
    by (simp add: take_release_velocity_none engine_inv_def)
  from assms have "length_of s \<noteq> 0" "mass s \<noteq> 0"
    by (auto simp add: engine_inv_def in_envelope_def)
  from apply_forces_Inr [OF this, of dt] obtain p where p: "apply_forces dt s = Inr p"
    "minLength p = minLength s" "maxLength p = maxLength s"
     "mass p = mass s" "isDragged p = isDragged s" "isLimitReached p = isLimitReached s"
     "initialReleaseVelocityX p = initialReleaseVelocityX s"
     "initialReleaseVelocityY p = initialReleaseVelocityY s" by blast
  have u: "update dt s = Inr (enforce_limits p)"
    using assms(2) by (simp add: update_def trv p(1) bind_res_def)
  have "in_envelope (enforce_limits p)"
    using assms(1) p by (intro length_of_enforce_limits) (simp_all add: engine_inv_def)
  then have "engine_inv (enforce_limits p)"
    using assms p by (simp add: engine_inv_def enforce_limits_frame)
  with u show ?thesis by simp
qed

lemma take_release_velocity_length:
  assumes "take_release_velocity s = Inr s1" and "length_of s = 0"
  shows "length_of s1 = 0"
  using assms
  by (auto simp add: take_release_velocity_def length_of_def
      split: if_splits dbl.splits prod.splits)

lemma update_dragged: "isDragged s \<Longrightarrow> update dt s = Inr (sample_drag dt s)"
  by (simp add: update_def)

lemma ieee_div_zero: "ieee_div 0 dt = (if dt = 0 then NaN else Num 0)"
  by (simp add: ieee_div_def)

lemma sample_drag_inv:
  assumes "engine_inv s" "isDragged s"
  shows "engine_inv (sample_drag dt s)"
  using assms
  by (simp add: sample_drag_def engine_inv_def in_envelope_def length_of_def ieee_div_zero)

lemma update_inv:
  assumes "engine_inv s" "update dt s = Inr s'"
  shows "engine_inv s'"
proof (cases "isDragged s")
  case True
  from sample_drag_inv [OF assms(1) True, of dt] assms(2) True show ?thesis
    by (simp add: update_dragged)
next
  case False
  from update_free_inv [OF assms(1) False, of dt] assms(2) show ?thesis by simp
qed

lemma dragTo_inv:
  assumes "engine_inv s"
  shows "engine_inv (dragTo x y s)"
  using assms
  by (auto simp add: dragTo_def engine_inv_def in_envelope_def length_of_def Let_def vlen_polar)

lemma reachable_inv: "reachable s \<Longrightarrow> engine_inv s"
  by (induction rule: reachable.induct)
     (simp_all add: engine_inv_initial update_inv dragTo_inv engine_inv_release)

text \<open>
  The test of the hand-over fails in every reachable state, so the hand-over block of
  \<open>update\<close> changes no reachable state; and every call of \<open>update\<close> on a reachable state
  returns a state.
\<close>

lemma no_release_velocity_pending:
  assumes "reachable s"
  shows "\<not> abs_positive (initialReleaseVelocityX s) \<and>
         \<not> abs_positive (initialReleaseVelocityY s) \<and>
         take_release_velocity s = Inr s"
  using reachable_inv [OF assms] by (simp add: engine_inv_def take_release_velocity_none)

lemma reachable_update_total:
  assumes "reachable s"
  shows "\<exists>s'. update dt s = Inr s' \<and> reachable s'"
proof -
  have inv: "engine_inv s" using assms by (rule reachable_inv)
  have "\<exists>s'. update dt s = Inr s'"
  proof (cases "isDragged s")
    case True
    then show ?thesis by (simp add: update_dragged)
  next
    case False
    from update_free_inv [OF inv False, of dt] show ?thesis by blast
  qed
  then obtain s' where "update dt s = Inr s'" by blast
  with assms show ?thesis by (blast intro: reachable.integrate)
qed

text \<open>The first step of the constructed state, with \<open>deltaTime = 0.016\<close>.\<close>

lemma first_step:
  "update (2 / 125) initial_state =
     Inr (initial_state\<lparr> velocityY := 98 / 625, currentY := 300 + 196 / 78125 \<rparr>)"
  by (simp add: update_def take_release_velocity_def apply_forces_def enforce_limits_def
      initial_state_def SCREEN_WIDTH_def Let_def bind_res_def ddiv_def vlen_zero_left)

text \<open>
  A drag to \<open>(400, 310)\<close>, a dragged \<open>update\<close> with \<open>deltaTime = 0\<close>, and a release: the
  pending release velocity is NaN in both components, and the states are reachable.
\<close>

lemma sampled_at_zero:
  "update 0 (dragTo 400 310 initial_state) =
     Inr (initial_state\<lparr> isDragged := True, currentY := 310, lastDragY := 310,
            initialReleaseVelocityX := NaN, initialReleaseVelocityY := NaN \<rparr>)"
  by (simp add: update_def sample_drag_def dragTo_def ieee_div_def
      initial_state_def SCREEN_WIDTH_def Let_def vlen_zero_left)

lemma reachable_sampled_at_zero:
  "reachable (initial_state\<lparr> isDragged := True, currentY := 310, lastDragY := 310,
      initialReleaseVelocityX := NaN, initialReleaseVelocityY := NaN \<rparr>)"
  by (rule reachable.integrate [OF reachable.drag [OF reachable.init] sampled_at_zero])

section \<open>Steps of \<open>update\<close> and \<open>dragTo\<close>\<close>

lemma dragTo_in_range_initial:
  "dragTo 400 310 initial_state =
     initial_state\<lparr> isDragged := True, currentY := 310, lastDragY := 310 \<rparr>"
  by (simp add: dragTo_def initial_state_def SCREEN_WIDTH_def Let_def vlen_zero_left)

lemma update_free_eq:
  assumes "\<not> isDragged s"
      and "bind_res (take_release_velocity s) (apply_forces deltaTime) = Inr p"
  shows "update deltaTime s = Inr (enforce_limits p)"
  using assms by (auto simp add: update_def bind_res_def split: sum.splits)

lemma enforce_limits_below:
  assumes "length_of p < minLength p"
  shows "length_of (enforce_limits p) = minLength p"
    and "atan2 (currentY (enforce_limits p) - anchorY (enforce_limits p))
               (currentX (enforce_limits p) - anchorX (enforce_limits p)) =
         atan2 (currentY p - anchorY p) (currentX p - anchorX p)"
    and "velocityX (enforce_limits p) = - (1 / 2) * velocityX p"
    and "velocityY (enforce_limits p) = - (1 / 2) * velocityY p"
proof -
  have pos: "0 < minLength p"
    using assms vlen_nonneg [of "currentX p - anchorX p" "currentY p - anchorY p"]
    by (simp add: length_of_def)
  show "length_of (enforce_limits p) = minLength p"
    using assms pos by (simp add: enforce_limits_def length_of_def Let_def vlen_polar)
  show "atan2 (currentY (enforce_limits p) - anchorY (enforce_limits p))
               (currentX (enforce_limits p) - anchorX (enforce_limits p)) =
         atan2 (currentY p - anchorY p) (currentX p - anchorX p)"
    using assms by (simp add: enforce_limits_def length_of_def Let_def atan2_polar [OF pos])
  show "velocityX (enforce_limits p) = - (1 / 2) * velocityX p"
    and "velocityY (enforce_limits p) = - (1 / 2) * velocityY p"
    using assms by (simp_all add: enforce_limits_def length_of_def Let_def)
qed

lemma enforce_limits_above:
  assumes "\<not> length_of p < minLength p" and "maxLength p < length_of p" and pos: "0 < maxLength p"
  shows "length_of (enforce_limits p) = maxLength p"
    and "atan2 (currentY (enforce_limits p) - anchorY (enforce_limits p))
               (currentX (enforce_limits p) - anchorX (enforce_limits p)) =
         atan2 (currentY p - anchorY p) (currentX p - anchorX p)"
    and "velocityX (enforce_limits p) = - (1 / 2) * velocityX p"
    and "velocityY (enforce_limits p) = - (1 / 2) * velocityY p"
proof -
  show "length_of (enforce_limits p) = maxLength p"
    using assms by (simp add: enforce_limits_def length_of_def Let_def vlen_polar)
  show "atan2 (currentY (enforce_limits p) - anchorY (enforce_limits p))
               (currentX (enforce_limits p) - anchorX (enforce_limits p)) =
         atan2 (currentY p - anchorY p) (currentX p - anchorX p)"
    using assms by (simp add: enforce_limits_def length_of_def Let_def atan2_polar [OF pos])
  show "velocityX (enforce_limits p) = - (1 / 2) * velocityX p"
    and "velocityY (enforce_limits p) = - (1 / 2) * velocityY p"
    using assms by (simp_all add: enforce_limits_def length_of_def Let_def)
qed

lemma inward_step:
  "bind_res (take_release_velocity (initial_state\<lparr> velocityY := - 1000 \<rparr>))
     (apply_forces (1 / 5)) =
     Inr (initial_state\<lparr> velocityY := - (46902 / 50), currentY := 300 - 46902 / 250 \<rparr>)"
  by (simp add: take_release_velocity_def apply_forces_def
      initial_state_def SCREEN_WIDTH_def Let_def bind_res_def ddiv_def vlen_zero_left)

lemma dragTo_pinned:
  assumes "isLimitReached t" and "\<not> pointer_in_range t mouseX mouseY"
  shows "dragTo mouseX mouseY t = t\<lparr> isDragged := True \<rparr>"
  using assms by (auto simp add: dragTo_def pointer_in_range_def Let_def)

lemma pointer_in_range_dragged:
  "pointer_in_range (t\<lparr> isDragged := True \<rparr>) x y = pointer_in_range t x y"
  by (simp add: pointer_in_range_def)

lemma drag_all_pinned:
  assumes "isLimitReached t" and "\<forall>(x, y) \<in> set ps. \<not> pointer_in_range t x y"
  shows "drag_all ps t = t \<or> drag_all ps t = t\<lparr> isDragged := True \<rparr>"
  using assms
proof (induction ps arbitrary: t)
  case Nil
  then show ?case by simp
next
  case (Cons q ps)
  obtain x y where q: "q = (x, y)" by (cases q)
  from Cons.prems q have step: "dragTo x y t = t\<lparr> isDragged := True \<rparr>"
    by (simp add: dragTo_pinned)
  have "isLimitReached (t\<lparr> isDragged := True \<rparr>)"
    using Cons.prems(1) by simp
  moreover have "\<forall>(x, y) \<in> set ps. \<not> pointer_in_range (t\<lparr> isDragged := True \<rparr>) x y"
    using Cons.prems(2) by (simp add: pointer_in_range_dragged)
  ultimately have "drag_all ps (t\<lparr> isDragged := True \<rparr>) = t\<lparr> isDragged := True \<rparr> \<or>
      drag_all ps (t\<lparr> isDragged := True \<rparr>) = t\<lparr> isDragged := True, isDragged := True \<rparr>"
    by (rule Cons.IH)
  then show ?case by (simp add: q step)
qed

lemma dragTo_beyond_max:
  assumes "\<not> isLimitReached s"
      and "maxLength s < vlen (mouseX - anchorX s) (mouseY - anchorY s)"
      and "minLength s \<le> maxLength s"
  shows "dragTo mouseX mouseY s =
           s\<lparr> isDragged := True,
              currentX := anchorX s + maxLength s * cos (atan2 (mouseY - anchorY s) (mouseX - anchorX s)),
              currentY := anchorY s + maxLength s * sin (atan2 (mouseY - anchorY s) (mouseX - anchorX s)),
              lastDragX := anchorX s + maxLength s * cos (atan2 (mouseY - anchorY s) (mouseX - anchorX s)),
              lastDragY := anchorY s + maxLength s * sin (atan2 (mouseY - anchorY s) (mouseX - anchorX s)),
              isLimitReached := True \<rparr>"
  using assms by (simp add: dragTo_def Let_def)

lemma first_pin:
  "dragTo 400 1000 initial_state =
     initial_state\<lparr> isDragged := True, currentY := 550, lastDragY := 550, isLimitReached := True \<rparr>"
  by (simp add: dragTo_def initial_state_def SCREEN_WIDTH_def Let_def vlen_zero_left atan2_vertical_up)

section \<open>The drag samples\<close>

text \<open>
  C3, as the code has it. In every reachable state with \<open>isDragged\<close> set, the last drag
  position is the current position, so the displacement a dragged \<open>update\<close> computes is
  zero. The call returns a state for every \<open>deltaTime\<close>: for a \<open>deltaTime\<close> other than zero
  its pending release velocity is \<open>(0, 0)\<close>, and for \<open>deltaTime = 0\<close> it is the NaN of
  \<open>0.0 / 0.0\<close> in both components.
\<close>

theorem drag_sample_is_zero:
  assumes "reachable s" and "isDragged s"
  shows "lastDragX s = currentX s \<and> lastDragY s = currentY s \<and>
         currentX s - lastDragX s = 0 \<and> currentY s - lastDragY s = 0 \<and>
         (\<forall>deltaTime. deltaTime \<noteq> 0 \<longrightarrow>
            (\<exists>s'. update deltaTime s = Inr s' \<and> reachable s' \<and>
                  initialReleaseVelocityX s' = Num 0 \<and> initialReleaseVelocityY s' = Num 0)) \<and>
         (\<exists>s'. update 0 s = Inr s' \<and> reachable s' \<and>
               initialReleaseVelocityX s' = NaN \<and> initialReleaseVelocityY s' = NaN)"
proof -
  have inv: "engine_inv s" using assms(1) by (rule reachable_inv)
  then have same: "lastDragX s = currentX s" "lastDragY s = currentY s"
    using assms(2) by (simp_all add: engine_inv_def)
  have step: "update deltaTime s = Inr (sample_drag deltaTime s)" for deltaTime
    using assms(2) by (rule update_dragged)
  have reach: "reachable (sample_drag deltaTime s)" for deltaTime
    by (rule reachable.integrate [OF assms(1) step])
  have pending: "initialReleaseVelocityX (sample_drag deltaTime s) = (if deltaTime = 0 then NaN else Num 0)"
    "initialReleaseVelocityY (sample_drag deltaTime s) = (if deltaTime = 0 then NaN else Num 0)"
    for deltaTime
    using same by (simp_all add: sample_drag_def ieee_div_zero)
  have "\<exists>s'. update deltaTime s = Inr s' \<and> reachable s' \<and>
          initialReleaseVelocityX s' = Num 0 \<and> initialReleaseVelocityY s' = Num 0"
    if "deltaTime \<noteq> 0" for deltaTime
    using that step [of deltaTime] reach [of deltaTime] pending [of deltaTime] by simp
  moreover have "\<exists>s'. update 0 s = Inr s' \<and> reachable s' \<and>
      initialReleaseVelocityX s' = NaN \<and> initialReleaseVelocityY s' = NaN"
    using step [of 0] reach [of 0] pending [of 0] by simp
  ultimately show ?thesis using same by simp
qed

text \<open>
  The theorem at the state after \<open>dragTo(400, 310); update(0)\<close>, whose pending release
  velocity is NaN: an \<open>update\<close> with \<open>deltaTime = 1\<close> stores \<open>(0, 0)\<close> again.
\<close>

theorem drag_sample_is_zero_witness:
  "reachable (initial_state\<lparr> isDragged := True, currentY := 310, lastDragY := 310,
      initialReleaseVelocityX := NaN, initialReleaseVelocityY := NaN \<rparr>) \<and>
   isDragged (initial_state\<lparr> isDragged := True, currentY := 310, lastDragY := 310,
      initialReleaseVelocityX := NaN, initialReleaseVelocityY := NaN \<rparr>) \<and>
   (\<exists>s'. update 1 (initial_state\<lparr> isDragged := True, currentY := 310, lastDragY := 310,
            initialReleaseVelocityX := NaN, initialReleaseVelocityY := NaN \<rparr>) = Inr s' \<and>
         initialReleaseVelocityX s' = Num 0 \<and> initialReleaseVelocityY s' = Num 0)"
proof -
  let ?s = "initial_state\<lparr> isDragged := True, currentY := 310, lastDragY := 310,
      initialReleaseVelocityX := NaN, initialReleaseVelocityY := NaN \<rparr>"
  have d: "isDragged ?s" by simp
  have one: "(1::real) \<noteq> 0" by simp
  from drag_sample_is_zero [OF reachable_sampled_at_zero d] one
  have "\<exists>s'. update 1 ?s = Inr s' \<and> reachable s' \<and>
      initialReleaseVelocityX s' = Num 0 \<and> initialReleaseVelocityY s' = Num 0"
    by blast
  with reachable_sampled_at_zero d show ?thesis by blast
qed

text \<open>
  With \<open>deltaTime = 0\<close> the dragged \<open>update\<close> divides the zero displacement by zero: the
  pending release velocity it stores is NaN, not \<open>0\<close>.
\<close>

theorem drag_sample_zero_dt_counterexample:
  "reachable (dragTo 400 310 initial_state) \<and> isDragged (dragTo 400 310 initial_state) \<and>
   update 0 (dragTo 400 310 initial_state) = Inr (sample_drag 0 (dragTo 400 310 initial_state)) \<and>
   initialReleaseVelocityX (sample_drag 0 (dragTo 400 310 initial_state)) = NaN \<and>
   initialReleaseVelocityY (sample_drag 0 (dragTo 400 310 initial_state)) = NaN \<and>
   initialReleaseVelocityX (sample_drag 0 (dragTo 400 310 initial_state)) \<noteq> Num 0"
proof -
  have r: "reachable (dragTo 400 310 initial_state)"
    by (rule reachable.drag [OF reachable.init])
  have d: "isDragged (dragTo 400 310 initial_state)"
    by (simp only: dragTo_in_range_initial) simp
  have n: "initialReleaseVelocityX (sample_drag 0 (dragTo 400 310 initial_state)) = NaN"
    "initialReleaseVelocityY (sample_drag 0 (dragTo 400 310 initial_state)) = NaN"
    by (simp_all only: dragTo_in_range_initial)
       (simp_all add: sample_drag_def ieee_div_def initial_state_def)
  from r d update_dragged [OF d, of 0] n show ?thesis
    by simp
qed

text \<open>
  C2. The scenario of the release hand-over, evaluated: the mass is grabbed at
  \<open>(400, 300)\<close>, sampled after one second, dragged by \<open>\<Delta> = (0, 10)\<close> to \<open>(400, 310)\<close>,
  sampled after one more second and released. The pending release velocity is \<open>(0, 0)\<close>
  and the velocity that the next \<open>update\<close> starts from is \<open>(0, 0)\<close>, not \<open>\<Delta>\<close>: \<open>dragTo\<close> has
  already moved the last drag position onto the current position when the sample is taken.
\<close>

theorem release_handoff_lost:
  "case update 1 (dragTo 400 300 initial_state) of
     Inl e \<Rightarrow> False
   | Inr s2 \<Rightarrow>
      (case update 1 (dragTo 400 310 s2) of
         Inl e \<Rightarrow> False
       | Inr s4 \<Rightarrow>
          (case take_release_velocity (release s4) of
             Inl e \<Rightarrow> False
           | Inr s5 \<Rightarrow>
               currentX s4 - currentX s2 = 0 \<and> currentY s4 - currentY s2 = 10 \<and>
               initialReleaseVelocityX s4 = Num 0 \<and> initialReleaseVelocityY s4 = Num 0 \<and>
               velocityX s5 = 0 \<and> velocityY s5 = 0))"
  by (simp add: update_def sample_drag_def dragTo_def release_def take_release_velocity_def
      initial_state_def SCREEN_WIDTH_def Let_def ieee_div_def vlen_zero_left)

section \<open>The velocity during a drag\<close>

text \<open>
  C4. One \<open>update\<close> of the constructed state with \<open>deltaTime = 0.016\<close>, then a \<open>dragTo\<close> to
  \<open>(400, 1000)\<close>, beyond \<open>maxLength\<close>: the state is reachable and dragged, and its velocity
  is still the \<open>(0, 0.1568)\<close> of the free fall. Only the in-range branch of \<open>dragTo\<close>
  resets the velocity.
\<close>

theorem pinned_drag_keeps_velocity:
  "case update (2 / 125) initial_state of
     Inl e \<Rightarrow> False
   | Inr s1 \<Rightarrow>
       reachable (dragTo 400 1000 s1) \<and>
       isDragged (dragTo 400 1000 s1) \<and>
       velocityX (dragTo 400 1000 s1) = 0 \<and>
       velocityY (dragTo 400 1000 s1) = 98 / 625"
proof -
  let ?s1 = "initial_state\<lparr> velocityY := 98 / 625, currentY := 300 + 196 / 78125 \<rparr>"
  have "reachable ?s1"
    by (rule reachable.integrate [OF reachable.init first_step])
  then have "reachable (dragTo 400 1000 ?s1)"
    by (rule reachable.drag)
  moreover have "isDragged (dragTo 400 1000 ?s1) \<and> velocityX (dragTo 400 1000 ?s1) = 0 \<and>
      velocityY (dragTo 400 1000 ?s1) = 98 / 625"
    by (simp add: dragTo_def initial_state_def SCREEN_WIDTH_def Let_def vlen_zero_left)
  ultimately show ?thesis
    by (simp only: first_step sum.case)
qed

section \<open>The bounce at a limit\<close>

text \<open>
  C5. Let \<open>p\<close> be the state that the hand-over, the forces and the Euler step of a free
  \<open>update\<close> produce. If the length of \<open>p\<close> is below \<open>minLength\<close> or above \<open>maxLength\<close> (a positive
  length), the call returns a state whose length is the violated limit, whose angle
  from the anchor is the angle of \<open>p\<close>, and whose velocity is the velocity of \<open>p\<close> with
  both components negated and halved; so each component keeps half its magnitude and
  changes sign.
\<close>

theorem boundary_bounce:
  assumes "\<not> isDragged s"
      and "bind_res (take_release_velocity s) (apply_forces deltaTime) = Inr p"
      and "length_of p < minLength p \<or> maxLength p < length_of p"
      and "0 < maxLength p"
  shows "\<exists>s'. update deltaTime s = Inr s' \<and>
           length_of s' = (if length_of p < minLength p then minLength p else maxLength p) \<and>
           atan2 (currentY s' - anchorY s') (currentX s' - anchorX s') =
             atan2 (currentY p - anchorY p) (currentX p - anchorX p) \<and>
           velocityX s' = - (1 / 2) * velocityX p \<and>
           velocityY s' = - (1 / 2) * velocityY p \<and>
           \<bar>velocityX s'\<bar> = (1 / 2) * \<bar>velocityX p\<bar> \<and>
           \<bar>velocityY s'\<bar> = (1 / 2) * \<bar>velocityY p\<bar>"
proof (cases "length_of p < minLength p")
  case True
  from enforce_limits_below [OF True] update_free_eq [OF assms(1,2)] True
  show ?thesis by (simp add: abs_mult)
next
  case False
  with assms(3) have above: "maxLength p < length_of p" by simp
  from enforce_limits_above [OF False above assms(4)] update_free_eq [OF assms(1,2)] False
  show ?thesis by (simp add: abs_mult)
qed

theorem boundary_bounce_witness:
  "\<not> isDragged (initial_state\<lparr> velocityY := - 1000 \<rparr>) \<and>
   bind_res (take_release_velocity (initial_state\<lparr> velocityY := - 1000 \<rparr>))
     (apply_forces (1 / 5)) =
     Inr (initial_state\<lparr> velocityY := - (46902 / 50), currentY := 300 - 46902 / 250 \<rparr>) \<and>
   length_of (initial_state\<lparr> velocityY := - (46902 / 50), currentY := 300 - 46902 / 250 \<rparr>) < 100 \<and>
   (\<exists>s'. update (1 / 5) (initial_state\<lparr> velocityY := - 1000 \<rparr>) = Inr s' \<and>
         length_of s' = 100 \<and> velocityX s' = 0 \<and> velocityY s' = 46902 / 100)"
proof -
  let ?s = "initial_state\<lparr> velocityY := - 1000 \<rparr>"
  let ?p = "initial_state\<lparr> velocityY := - (46902 / 50), currentY := 300 - 46902 / 250 \<rparr>"
  have d: "\<not> isDragged ?s" by (simp add: initial_state_def)
  have len: "length_of ?p < 100"
    by (simp add: length_of_def initial_state_def SCREEN_WIDTH_def vlen_zero_left)
  have fields: "minLength ?p = 100" "maxLength ?p = 450" "velocityX ?p = 0"
    "velocityY ?p = - (46902 / 50)"
    by (simp_all add: initial_state_def)
  have viol: "length_of ?p < minLength ?p \<or> maxLength ?p < length_of ?p"
    using len fields by simp
  have pos: "0 < maxLength ?p" using fields by simp
  from boundary_bounce [OF d inward_step viol pos]
  obtain s' where "update (1 / 5) ?s = Inr s'"
    "length_of s' = (if length_of ?p < minLength ?p then minLength ?p else maxLength ?p)"
    "velocityX s' = - (1 / 2) * velocityX ?p" "velocityY s' = - (1 / 2) * velocityY ?p"
    by blast
  with len have "update (1 / 5) ?s = Inr s' \<and> length_of s' = 100 \<and> velocityX s' = 0 \<and>
      velocityY s' = 46902 / 100"
    using fields by simp
  with d inward_step len show ?thesis by blast
qed

section \<open>Division by a zero length\<close>

text \<open>
  C6, as the code has it. \<open>update\<close> has no special case for a zero length: in free mode
  on a state whose length is exactly \<open>0\<close> it divides by that length. In every reachable
  state the length is positive and the mass is not zero, so a free \<open>update\<close> of a
  reachable state divides by no zero and returns a state.
\<close>

theorem free_update_division:
  "(\<not> isDragged s \<and> length_of s = 0 \<longrightarrow> update deltaTime s = Inl DivByZero) \<and>
   (reachable s \<and> \<not> isDragged s \<longrightarrow>
      0 < length_of s \<and> mass s \<noteq> 0 \<and>
      (\<exists>s'. update deltaTime s = Inr s' \<and> reachable s'))"
proof -
  have "update deltaTime s = Inl DivByZero" if "\<not> isDragged s" "length_of s = 0"
  proof (cases "take_release_velocity s")
    case (Inl e)
    moreover have "e = DivByZero" by (cases e)
    ultimately show ?thesis using that(1) by (simp add: update_def bind_res_def)
  next
    case (Inr s1)
    then have "length_of s1 = 0"
      using that(2) by (rule take_release_velocity_length)
    then have "apply_forces deltaTime s1 = Inl DivByZero"
      by (simp add: apply_forces_def length_of_def Let_def bind_res_def ddiv_def)
    with that(1) Inr show ?thesis by (simp add: update_def bind_res_def)
  qed
  moreover have "0 < length_of s \<and> mass s \<noteq> 0 \<and>
      (\<exists>s'. update deltaTime s = Inr s' \<and> reachable s')" if "reachable s" "\<not> isDragged s"
  proof -
    have inv: "engine_inv s" using that(1) by (rule reachable_inv)
    from reachable_update_total [OF that(1), of deltaTime] inv show ?thesis
      by (auto simp add: engine_inv_def in_envelope_def)
  qed
  ultimately show ?thesis by blast
qed

text \<open>
  The theorem at the constructed state with the mass moved onto the anchor, and at the
  state after \<open>dragTo(400, 310); update(0); release()\<close>, whose pending release velocity
  is NaN.
\<close>

theorem free_update_division_witness:
  "\<not> isDragged (initial_state\<lparr> currentY := 100 \<rparr>) \<and>
   length_of (initial_state\<lparr> currentY := 100 \<rparr>) = 0 \<and>
   update 1 (initial_state\<lparr> currentY := 100 \<rparr>) = Inl DivByZero \<and>
   reachable (release (initial_state\<lparr> isDragged := True, currentY := 310, lastDragY := 310,
      initialReleaseVelocityX := NaN, initialReleaseVelocityY := NaN \<rparr>)) \<and>
   \<not> isDragged (release (initial_state\<lparr> isDragged := True, currentY := 310, lastDragY := 310,
      initialReleaseVelocityX := NaN, initialReleaseVelocityY := NaN \<rparr>)) \<and>
   (\<exists>s'. update (2 / 125) (release (initial_state\<lparr> isDragged := True, currentY := 310,
      lastDragY := 310, initialReleaseVelocityX := NaN, initialReleaseVelocityY := NaN \<rparr>)) = Inr s')"
proof -
  let ?s = "release (initial_state\<lparr> isDragged := True, currentY := 310, lastDragY := 310,
      initialReleaseVelocityX := NaN, initialReleaseVelocityY := NaN \<rparr>)"
  have a: "\<not> isDragged (initial_state\<lparr> currentY := 100 \<rparr>)"
    "length_of (initial_state\<lparr> currentY := 100 \<rparr>) = 0"
    by (simp_all add: initial_state_def length_of_def vlen_zero_left)
  have r: "reachable ?s"
    by (rule reachable.let_go [OF reachable_sampled_at_zero])
  have d: "\<not> isDragged ?s"
    by (simp add: release_def)
  from free_update_division [of "initial_state\<lparr> currentY := 100 \<rparr>" 1] a
  have z: "update 1 (initial_state\<lparr> currentY := 100 \<rparr>) = Inl DivByZero"
    by blast
  from free_update_division [of ?s "2 / 125"] r d
  have "\<exists>s'. update (2 / 125) ?s = Inr s'"
    by blast
  with a z r d show ?thesis by blast
qed

text \<open>
  The constructed state with the mass moved onto the anchor: the length is \<open>0\<close> and the
  free \<open>update\<close> divides by it.
\<close>

theorem zero_length_divides_counterexample:
  "\<not> isDragged (initial_state\<lparr> currentY := 100 \<rparr>) \<and>
   length_of (initial_state\<lparr> currentY := 100 \<rparr>) = 0 \<and>
   update (2 / 125) (initial_state\<lparr> currentY := 100 \<rparr>) = Inl DivByZero"
  by (simp add: update_def take_release_velocity_def apply_forces_def length_of_def
      initial_state_def SCREEN_WIDTH_def Let_def bind_res_def ddiv_def vlen_zero_left)

section \<open>A zero time step\<close>




section \<open>Pinning at the limit\<close>

text \<open>
  C8. With ordered limits and a positive \<open>maxLength\<close>: the first \<open>dragTo\<close> whose pointer is
  farther from the anchor than \<open>maxLength\<close>, on a state whose limit flag is clear, puts the
  mass at length \<open>maxLength\<close> along the angle of the pointer, records that position as the
  last drag position and sets the limit flag; after any further \<open>dragTo\<close> calls whose
  pointers are all out of range the mass is at the same position and the flag is set.
\<close>

theorem drag_pinning:
  assumes "\<not> isLimitReached s"
      and "maxLength s < vlen (mouseX - anchorX s) (mouseY - anchorY s)"
      and "minLength s \<le> maxLength s" and "0 < maxLength s"
      and "\<forall>(x, y) \<in> set ps. \<not> pointer_in_range s x y"
  shows "currentX (dragTo mouseX mouseY s) =
           anchorX s + maxLength s * cos (atan2 (mouseY - anchorY s) (mouseX - anchorX s)) \<and>
         currentY (dragTo mouseX mouseY s) =
           anchorY s + maxLength s * sin (atan2 (mouseY - anchorY s) (mouseX - anchorX s)) \<and>
         length_of (dragTo mouseX mouseY s) = maxLength s \<and>
         atan2 (currentY (dragTo mouseX mouseY s) - anchorY s)
               (currentX (dragTo mouseX mouseY s) - anchorX s) =
           atan2 (mouseY - anchorY s) (mouseX - anchorX s) \<and>
         lastDragX (dragTo mouseX mouseY s) = currentX (dragTo mouseX mouseY s) \<and>
         lastDragY (dragTo mouseX mouseY s) = currentY (dragTo mouseX mouseY s) \<and>
         isLimitReached (dragTo mouseX mouseY s) \<and>
         currentX (drag_all ps (dragTo mouseX mouseY s)) = currentX (dragTo mouseX mouseY s) \<and>
         currentY (drag_all ps (dragTo mouseX mouseY s)) = currentY (dragTo mouseX mouseY s) \<and>
         isLimitReached (drag_all ps (dragTo mouseX mouseY s))"
proof -
  let ?s1 = "dragTo mouseX mouseY s"
  note first = dragTo_beyond_max [OF assms(1,2,3)]
  have pos: "currentX ?s1 = anchorX s + maxLength s * cos (atan2 (mouseY - anchorY s) (mouseX - anchorX s))"
    "currentY ?s1 = anchorY s + maxLength s * sin (atan2 (mouseY - anchorY s) (mouseX - anchorX s))"
    "lastDragX ?s1 = currentX ?s1" "lastDragY ?s1 = currentY ?s1" "isLimitReached ?s1"
    by (simp_all add: first)
  have len: "length_of ?s1 = maxLength s"
    using assms(4) by (simp add: first length_of_def vlen_polar)
  have ang: "atan2 (currentY ?s1 - anchorY s) (currentX ?s1 - anchorX s) =
      atan2 (mouseY - anchorY s) (mouseX - anchorX s)"
    by (simp add: pos atan2_polar [OF assms(4)])
  have "\<forall>(x, y) \<in> set ps. \<not> pointer_in_range ?s1 x y"
    using assms(5) by (simp add: first pointer_in_range_def)
  from drag_all_pinned [OF pos(5) this]
  have later: "currentX (drag_all ps ?s1) = currentX ?s1" "currentY (drag_all ps ?s1) = currentY ?s1"
    "isLimitReached (drag_all ps ?s1)"
    using pos(5) by auto
  from pos len ang later show ?thesis by simp
qed

theorem drag_pinning_witness:
  "\<not> isLimitReached initial_state \<and>
   maxLength initial_state < vlen (400 - anchorX initial_state) (1000 - anchorY initial_state) \<and>
   \<not> pointer_in_range initial_state 400 700 \<and> \<not> pointer_in_range initial_state 400 150 \<and>
   currentX (dragTo 400 1000 initial_state) = 400 \<and>
   currentY (dragTo 400 1000 initial_state) = 550 \<and>
   length_of (dragTo 400 1000 initial_state) = 450 \<and>
   isLimitReached (dragTo 400 1000 initial_state) \<and>
   currentX (drag_all [(400, 700), (400, 150)] (dragTo 400 1000 initial_state)) = 400 \<and>
   currentY (drag_all [(400, 700), (400, 150)] (dragTo 400 1000 initial_state)) = 550 \<and>
   isLimitReached (drag_all [(400, 700), (400, 150)] (dragTo 400 1000 initial_state))"
proof -
  have h: "\<not> isLimitReached initial_state"
    "maxLength initial_state < vlen (400 - anchorX initial_state) (1000 - anchorY initial_state)"
    "minLength initial_state \<le> maxLength initial_state" "0 < maxLength initial_state"
    by (simp_all add: initial_state_def SCREEN_WIDTH_def vlen_zero_left)
  have out: "\<not> pointer_in_range initial_state 400 700" "\<not> pointer_in_range initial_state 400 150"
    by (simp_all add: pointer_in_range_def initial_state_def SCREEN_WIDTH_def vlen_zero_left)
  then have ps: "\<forall>(x, y) \<in> set [(400, 700), (400, 150)]. \<not> pointer_in_range initial_state x y"
    by simp
  have c: "currentX (dragTo 400 1000 initial_state) = 400"
    "currentY (dragTo 400 1000 initial_state) = 550"
    "maxLength initial_state = 450"
    by (simp_all only: first_pin) (simp_all add: initial_state_def SCREEN_WIDTH_def)
  from drag_pinning [OF h ps] h(1,2) out c show ?thesis
    by simp
qed

section \<open>The first step\<close>

text \<open>
  C9. The constructed state has anchor \<open>(400, 100)\<close>, rest length \<open>200\<close>, limits \<open>100\<close> and
  \<open>450\<close>, mass \<open>1\<close>, stiffness \<open>100\<close>, damping \<open>0.3\<close>, the mass at rest length with no
  velocity and no release velocity pending. One \<open>update\<close> with \<open>deltaTime = 0.016\<close> returns
  a state with a larger \<open>currentY\<close> and a length above \<open>200\<close> and at most \<open>450\<close>.
\<close>

theorem first_step_moves_down:
  "anchorX initial_state = 400 \<and> anchorY initial_state = 100 \<and>
   restLength initial_state = 200 \<and> minLength initial_state = 100 \<and>
   maxLength initial_state = 450 \<and> mass initial_state = 1 \<and>
   stiffness initial_state = 100 \<and> damping initial_state = 3 / 10 \<and>
   length_of initial_state = restLength initial_state \<and>
   velocityX initial_state = 0 \<and> velocityY initial_state = 0 \<and>
   initialReleaseVelocityX initial_state = Num 0 \<and>
   initialReleaseVelocityY initial_state = Num 0 \<and>
   (case update (16 / 1000) initial_state of
      Inl e \<Rightarrow> False
    | Inr s' \<Rightarrow> currentY initial_state < currentY s' \<and> 200 < length_of s' \<and> length_of s' \<le> 450)"
  by (simp add: first_step length_of_def vlen_zero_left)
     (simp add: initial_state_def SCREEN_WIDTH_def vlen_zero_left)

section \<open>Release\<close>

text \<open>
  C10. \<open>release()\<close> is idempotent: a second call in a row leaves the state as the first
  call left it, for every state.
\<close>

theorem release_idempotent: "release (release s) = release s"
  by (simp add: release_def)

end
